theory Spec2Isabelle
  imports Complex_Main "HOL-Library.Log_Nat"
begin

section \<open>Data model (types.ts, leaderboardService.ts)\<close>

text \<open>
  A JavaScript number is modelled by the real that the double stands for; every sum,
  difference and product of the source is rounded to the nearest double, a tie to the even
  one, by \<open>double\<close> below. Infinities and NaN are not part of the model. Score, lives,
  points and the timer only ever hold integers and are integers here. Words are strings
  compared by equality only.
\<close>

datatype GameState = SELECTING_DIFFICULTY | PLAYING | GAME_OVER

record Difficulty =
  name :: string
  threshold :: real
  multiplier :: real

record GameAttempt =
  previousWord :: string
  newWord :: string
  similarity :: real
  success :: bool
  requiredThreshold :: real
  points :: int

record LeaderboardEntry =
  entry_name :: string
  entry_score :: int

section \<open>Rank evaluator (calculateRank in GameOverScreen)\<close>

text \<open>
  The \<^verbatim>\<open>for\<close> loop of \<^verbatim>\<open>calculateRank\<close>, started at index \<open>i\<close> on the entries from that
  index on: it stops at the first entry that the score beats or ties.
\<close>

fun rank_loop :: "int \<Rightarrow> LeaderboardEntry list \<Rightarrow> nat \<Rightarrow> nat option" where
  "rank_loop scoreToRank [] i = None"
| "rank_loop scoreToRank (e # es) i =
     (if scoreToRank > entry_score e then Some (i + 1)
      else if scoreToRank = entry_score e then Some (i + 1)
      else rank_loop scoreToRank es (i + 1))"

definition calculateRank :: "int \<Rightarrow> LeaderboardEntry list \<Rightarrow> nat option" where
  "calculateRank scoreToRank currentLeaderboard =
     (if scoreToRank \<le> 0 then None
      else (case rank_loop scoreToRank currentLeaderboard 0 of
              Some rank \<Rightarrow> Some rank
            | None \<Rightarrow>
                if length currentLeaderboard < 3
                then Some (length currentLeaderboard + 1)
                else None))"

section \<open>Session engine (the App component)\<close>

text \<open>Messages shown through \<^verbatim>\<open>setError\<close>; the Korean texts are abstracted to constructors.\<close>

datatype message =
    MsgUsedWord
  | MsgTimeout int
  | MsgLowSimilarity int
  | MsgOracle string

text \<open>
  An \<^verbatim>\<open>async\<close> handler suspended at its \<^verbatim>\<open>await\<close> is a pending call. The continuation
  of \<^verbatim>\<open>handleSubmitWord\<close> reads the values its closure captured when the handler was
  called; they are kept in the pending call.
\<close>

record submit_closure =
  c_newWord :: string
  c_currentWord :: string
  c_difficulty :: Difficulty
  c_currentThreshold :: real
  c_history :: "GameAttempt list"
  c_lives :: int

datatype pending_call =
    NoCall
  | AwaitRandomWord
  | AwaitSimilarity submit_closure

text \<open>
  The \<^verbatim>\<open>useState\<close> cells of \<^verbatim>\<open>App\<close> that the engine uses (the mute and shake flags are
  presentation only), and the pending call.
\<close>

record App =
  gameState :: GameState
  difficulty :: "Difficulty option"
  currentThreshold :: real
  score :: int
  currentWord :: string
  history :: "GameAttempt list"
  lives :: int
  isLoading :: bool
  error :: "message option"
  timeLeft :: int
  pending :: pending_call

definition initialApp :: App where
  "initialApp =
     \<lparr> gameState = SELECTING_DIFFICULTY, difficulty = None, currentThreshold = 0,
       score = 0, currentWord = [], history = [], lives = 3, isLoading = False,
       error = None, timeLeft = 30, pending = NoCall \<rparr>"

text \<open>
  \<^verbatim>\<open>Math.round\<close>: the nearest integer, a tie going up. It is exact on a double.
\<close>

definition Math_round :: "real \<Rightarrow> int" where
  "Math_round x = \<lfloor>x + 1 / 2\<rfloor>"

text \<open>
  The arithmetic of doubles (IEEE 754 binary64, rounding to nearest, ties to even). For
  \<open>x > 0\<close>, \<open>ilog2 x\<close> is the exponent of the binade of \<open>x\<close>; a double has 53
  significant bits, so the doubles around \<open>x\<close> are the multiples of
  \<open>2 powi (ilog2 \<bar>x\<bar> - 52)\<close>, and of \<open>2 powi (- 1074)\<close> in the subnormal range.
  \<open>double x\<close> is the double that a real result \<open>x\<close> is rounded to, and
  \<open>is_double\<close> holds of the reals that are doubles. A result beyond the largest double,
  which the machine turns into an infinity, is outside the model.
\<close>

definition round_to_even :: "real \<Rightarrow> int" where
  "round_to_even y =
     (let f = \<lfloor>y\<rfloor>; r = y - of_int f
      in if r < 1 / 2 then f
         else if r > 1 / 2 then f + 1
         else if even f then f else f + 1)"

definition ilog2 :: "real \<Rightarrow> int" where
  "ilog2 x = (if 1 \<le> x then bitlen \<lfloor>x\<rfloor> - 1 else - bitlen (\<lceil>1 / x\<rceil> - 1))"

definition double :: "real \<Rightarrow> real" where
  "double x =
     (if x = 0 then 0
      else (let e = max (ilog2 \<bar>x\<bar> - 52) (- 1074)
            in of_int (round_to_even (x / 2 powi e)) * 2 powi e))"

definition is_double :: "real \<Rightarrow> bool" where
  "is_double x \<longleftrightarrow> double x = x"

text \<open>
  The word recorded by a timeout: the Korean for "(time over)" between parentheses, here as
  the UTF-8 bytes of the source's string literal.
\<close>

definition TIMEOUT_WORD :: string where
  "TIMEOUT_WORD =
     [CHR ''('', CHR 0xEC, CHR 0x8B, CHR 0x9C, CHR 0xEA, CHR 0xB0, CHR 0x84, CHR '' '',
      CHR 0xEC, CHR 0xB4, CHR 0x88, CHR 0xEA, CHR 0xB3, CHR 0xBC, CHR '')'']"

definition handleTimeout :: "App \<Rightarrow> App" where
  "handleTimeout s =
     (let newLives = lives s - 1;
          attempt = \<lparr> previousWord = currentWord s, newWord = TIMEOUT_WORD,
                      similarity = 0, success = False,
                      requiredThreshold = currentThreshold s, points = - 1000 \<rparr>;
          s1 = s\<lparr> lives := newLives,
                  score := max 0 (score s - 1000),
                  history := history s @ [attempt] \<rparr>
      in if newLives \<le> 0 then s1\<lparr> gameState := GAME_OVER \<rparr>
         else s1\<lparr> error := Some (MsgTimeout newLives), timeLeft := 30 \<rparr>)"

text \<open>The callback given to \<^verbatim>\<open>useInterval\<close>.\<close>

definition interval_callback :: "App \<Rightarrow> App" where
  "interval_callback s =
     (if timeLeft s \<le> 1 then handleTimeout s else s\<lparr> timeLeft := timeLeft s - 1 \<rparr>)"

text \<open>\<^verbatim>\<open>handleSelectDifficulty\<close> up to its \<^verbatim>\<open>await\<close>, and from there on.\<close>

definition handleSelectDifficulty_begin :: "Difficulty \<Rightarrow> App \<Rightarrow> App" where
  "handleSelectDifficulty_begin selectedDifficulty s =
     s\<lparr> difficulty := Some selectedDifficulty,
        currentThreshold := threshold selectedDifficulty,
        isLoading := True,
        error := None,
        history := [],
        score := 0,
        lives := 3,
        timeLeft := 30,
        pending := AwaitRandomWord \<rparr>"

definition handleSelectDifficulty_resolve :: "string + string \<Rightarrow> App \<Rightarrow> App" where
  "handleSelectDifficulty_resolve r s =
     (case r of
        Inr firstWord \<Rightarrow>
          s\<lparr> currentWord := firstWord, gameState := PLAYING,
             isLoading := False, pending := NoCall \<rparr>
      | Inl msg \<Rightarrow>
          s\<lparr> error := Some (MsgOracle msg), gameState := SELECTING_DIFFICULTY,
             isLoading := False, pending := NoCall \<rparr>)"

text \<open>The set \<^verbatim>\<open>allPreviouslyUsedWords\<close> built by \<^verbatim>\<open>handleSubmitWord\<close>.\<close>

definition allPreviouslyUsedWords :: "App \<Rightarrow> string set" where
  "allPreviouslyUsedWords s =
     (if length (history s) > 0
      then insert (previousWord (hd (history s))) (set (map newWord (history s)))
      else insert (currentWord s) (set (map newWord (history s))))"

text \<open>\<^verbatim>\<open>handleSubmitWord\<close> up to its \<^verbatim>\<open>await\<close>.\<close>

definition handleSubmitWord_begin :: "string \<Rightarrow> App \<Rightarrow> App" where
  "handleSubmitWord_begin w s =
     (case difficulty s of
        None \<Rightarrow> s
      | Some d \<Rightarrow>
          if currentWord s = [] then s
          else if w \<in> allPreviouslyUsedWords s then s\<lparr> error := Some MsgUsedWord \<rparr>
          else s\<lparr> isLoading := True, error := None,
                  pending := AwaitSimilarity
                    \<lparr> c_newWord = w, c_currentWord = currentWord s, c_difficulty = d,
                      c_currentThreshold = currentThreshold s, c_history = history s,
                      c_lives = lives s \<rparr> \<rparr>)"

text \<open>
  The points of a successful attempt, as computed in the success branch. The literals
  \<^verbatim>\<open>0.2\<close> and \<^verbatim>\<open>0.01\<close> of the source are the doubles nearest to them.
\<close>

definition basePoints :: "real \<Rightarrow> real \<Rightarrow> int" where
  "basePoints sim thr = Math_round (double (double (sim - thr) * 10000))"

definition roundNumber :: "GameAttempt list \<Rightarrow> nat" where
  "roundNumber h = length (filter success h) + 1"

definition bonusPoints :: "int \<Rightarrow> nat \<Rightarrow> int" where
  "bonusPoints bp rn = Math_round (double (real_of_int bp * double (real rn * double 0.2)))"

definition totalPoints :: "submit_closure \<Rightarrow> real \<Rightarrow> int" where
  "totalPoints c sim =
     (let bp = basePoints sim (c_currentThreshold c);
          bonus = bonusPoints bp (roundNumber (c_history c))
      in Math_round
           (double (double (real_of_int bp + real_of_int bonus) * multiplier (c_difficulty c))))"

text \<open>
  \<^verbatim>\<open>handleSubmitWord\<close> after its \<^verbatim>\<open>await\<close>: the \<^verbatim>\<open>catch\<close> branch for a failed call, the
  success and failure branches otherwise, and the \<^verbatim>\<open>finally\<close> clause. Setters given a
  function read the current state, the others write values computed from the closure.
\<close>

definition handleSubmitWord_resolve :: "submit_closure \<Rightarrow> string + real \<Rightarrow> App \<Rightarrow> App" where
  "handleSubmitWord_resolve c r s =
     (case r of
        Inl msg \<Rightarrow> s\<lparr> error := Some (MsgOracle msg), isLoading := False, pending := NoCall \<rparr>
      | Inr sim \<Rightarrow>
          if sim \<ge> c_currentThreshold c then
            (let attempt = \<lparr> previousWord = c_currentWord c, newWord = c_newWord c,
                             similarity = sim, success = True,
                             requiredThreshold = c_currentThreshold c,
                             points = totalPoints c sim \<rparr>
             in s\<lparr> history := history s @ [attempt],
                   score := score s + totalPoints c sim,
                   currentWord := c_newWord c,
                   currentThreshold := double (currentThreshold s + double 0.01),
                   lives := 3,
                   timeLeft := 30,
                   isLoading := False,
                   pending := NoCall \<rparr>)
          else
            (let newLives = c_lives c - 1;
                 attempt = \<lparr> previousWord = c_currentWord c, newWord = c_newWord c,
                             similarity = sim, success = False,
                             requiredThreshold = c_currentThreshold c,
                             points = - 1000 \<rparr>;
                 s1 = s\<lparr> lives := newLives,
                         score := max 0 (score s - 1000),
                         history := history s @ [attempt],
                         isLoading := False,
                         pending := NoCall \<rparr>
             in if newLives \<le> 0 then s1\<lparr> gameState := GAME_OVER \<rparr>
                else s1\<lparr> error := Some (MsgLowSimilarity newLives), timeLeft := 30 \<rparr>))"

definition handleRestart :: "App \<Rightarrow> App" where
  "handleRestart s =
     s\<lparr> gameState := SELECTING_DIFFICULTY,
        difficulty := None,
        currentThreshold := 0,
        score := 0,
        currentWord := [],
        history := [],
        error := None \<rparr>"

text \<open>
  What reaches the handlers. \<^verbatim>\<open>renderContent\<close> mounts the difficulty selector only while
  selecting, the game screen (whose form calls \<^verbatim>\<open>onSubmit\<close> with the trimmed input when
  that is not empty and nothing is loading) only while playing, and the game-over screen
  with its restart button only when the game is over; the controls of the selector are
  disabled while loading; the interval runs while playing and not loading. The result
  of an oracle call resumes the handler that awaits it.
\<close>

datatype event =
    SelectDifficulty Difficulty
  | RandomWordResult "string + string"
  | SubmitWord string
  | SimilarityResult "string + real"
  | Tick
  | Restart

fun step :: "App \<Rightarrow> event \<Rightarrow> App" where
  "step s (SelectDifficulty d) =
     (if gameState s = SELECTING_DIFFICULTY \<and> \<not> isLoading s
      then handleSelectDifficulty_begin d s else s)"
| "step s (RandomWordResult r) =
     (case pending s of
        AwaitRandomWord \<Rightarrow> handleSelectDifficulty_resolve r s
      | _ \<Rightarrow> s)"
| "step s (SubmitWord w) =
     (if gameState s = PLAYING \<and> \<not> isLoading s \<and> w \<noteq> []
      then handleSubmitWord_begin w s else s)"
| "step s (SimilarityResult r) =
     (case pending s of
        AwaitSimilarity c \<Rightarrow> handleSubmitWord_resolve c r s
      | _ \<Rightarrow> s)"
| "step s Tick =
     (if gameState s = PLAYING \<and> \<not> isLoading s then interval_callback s else s)"
| "step s Restart =
     (if gameState s = GAME_OVER then handleRestart s else s)"

definition run :: "event list \<Rightarrow> App" where
  "run es = foldl step initialApp es"

section \<open>Sessions as event sequences\<close>

text \<open>
  The starting word of the session in progress is the word that the oracle delivered to
  the pending \<^verbatim>\<open>handleSelectDifficulty\<close>; a restart ends the session. It is not a
  state cell of the program: it is read off the events.
\<close>

definition startingWord_step :: "App \<Rightarrow> string option \<Rightarrow> event \<Rightarrow> string option" where
  "startingWord_step s g e =
     (case e of
        RandomWordResult (Inr w) \<Rightarrow> if pending s = AwaitRandomWord then Some w else g
      | Restart \<Rightarrow> if gameState s = GAME_OVER then None else g
      | _ \<Rightarrow> g)"

fun startingWord_from :: "App \<Rightarrow> string option \<Rightarrow> event list \<Rightarrow> string option" where
  "startingWord_from s g [] = g"
| "startingWord_from s g (e # es) = startingWord_from (step s e) (startingWord_step s g e) es"

definition startingWord :: "event list \<Rightarrow> string option" where
  "startingWord es = startingWord_from initialApp None es"

text \<open>
  The derived set \<open>usedWords\<close> in the words of the specification: the starting word plus
  every \<open>newWord\<close> recorded in the history.
\<close>

definition usedWords :: "event list \<Rightarrow> string set" where
  "usedWords es = set_option (startingWord es) \<union> set (map newWord (history (run es)))"

subsection \<open>The invariant of reachable states\<close>

definition submitted_distinct :: "GameAttempt list \<Rightarrow> bool" where
  "submitted_distinct h \<longleftrightarrow>
     distinct (map newWord (filter success h)) \<and>
     distinct (filter (\<lambda>w. w \<noteq> TIMEOUT_WORD) (map newWord h))"

definition in_session :: "string option \<Rightarrow> App \<Rightarrow> bool" where
  "in_session g s \<longleftrightarrow>
     difficulty s \<noteq> None \<and>
     g = Some (if history s = [] then currentWord s else previousWord (hd (history s))) \<and>
     submitted_distinct (history s)"

definition closure_ok :: "submit_closure \<Rightarrow> App \<Rightarrow> bool" where
  "closure_ok c s \<longleftrightarrow>
     c_lives c = lives s \<and> c_history c = history s \<and> c_currentWord c = currentWord s \<and>
     c_currentThreshold c = currentThreshold s \<and> difficulty s = Some (c_difficulty c) \<and>
     c_newWord c \<notin> allPreviouslyUsedWords s"

definition session_inv :: "string option \<Rightarrow> App \<Rightarrow> bool" where
  "session_inv g s \<longleftrightarrow>
     1 \<le> timeLeft s \<and> timeLeft s \<le> 30 \<and> 0 \<le> lives s \<and> lives s \<le> 3 \<and>
     (isLoading s \<longleftrightarrow> pending s \<noteq> NoCall) \<and>
     (gameState s = SELECTING_DIFFICULTY \<longrightarrow>
        currentWord s = [] \<and> history s = [] \<and> g = None \<and>
        (pending s = NoCall \<or> pending s = AwaitRandomWord)) \<and>
     (pending s = AwaitRandomWord \<longrightarrow>
        gameState s = SELECTING_DIFFICULTY \<and> lives s = 3 \<and> difficulty s \<noteq> None) \<and>
     (gameState s = PLAYING \<longrightarrow> 1 \<le> lives s) \<and>
     (gameState s = GAME_OVER \<longrightarrow> lives s = 0 \<and> pending s = NoCall) \<and>
     (gameState s \<noteq> SELECTING_DIFFICULTY \<longrightarrow> in_session g s) \<and>
     (\<forall>c. pending s = AwaitSimilarity c \<longrightarrow> closure_ok c s)"

subsection \<open>Sample sessions\<close>

text \<open>The difficulty of the scenarios: threshold 0.5, points doubled.\<close>

definition scenario_difficulty :: Difficulty where
  "scenario_difficulty = \<lparr> name = ''scenario'', threshold = 0.5, multiplier = 2 \<rparr>"

text \<open>A session on that difficulty that starts with the word \<open>a\<close>.\<close>

definition started :: "event list" where
  "started = [SelectDifficulty scenario_difficulty, RandomWordResult (Inr ''a'')]"

text \<open>The first submission succeeds with similarity 0.65, that is the double nearest to it.\<close>

definition first_success :: "event list" where
  "first_success = started @ [SubmitWord ''b'', SimilarityResult (Inr (double 0.65))]"

text \<open>One failed submission.\<close>

definition one_failure :: "event list" where
  "one_failure = started @ [SubmitWord ''b'', SimilarityResult (Inr 0.375)]"

text \<open>Three failed submissions in a row end the game.\<close>

definition three_failures :: "event list" where
  "three_failures =
     started @
     [SubmitWord ''b'', SimilarityResult (Inr 0.375),
      SubmitWord ''c'', SimilarityResult (Inr 0.375),
      SubmitWord ''d'', SimilarityResult (Inr 0.375)]"

text \<open>The oracle fails to deliver the starting word.\<close>

definition failed_start :: "event list" where
  "failed_start = [SelectDifficulty scenario_difficulty, RandomWordResult (Inl ''down'')]"

text \<open>The player restarts after the game is over.\<close>

definition restarted :: "event list" where
  "restarted = three_failures @ [Restart]"

text \<open>The timer of the first round runs down to its last second.\<close>

definition last_second :: "event list" where
  "last_second = started @ replicate 29 Tick"

text \<open>Two failed submissions, and the timer of the third round at its last second.\<close>

definition last_life :: "event list" where
  "last_life =
     started @
     [SubmitWord ''b'', SimilarityResult (Inr 0.375),
      SubmitWord ''c'', SimilarityResult (Inr 0.375)] @ replicate 29 Tick"

text \<open>
  The player submits the very word that a timeout records, the oracle accepts it, and the
  next round times out.
\<close>

definition marker_round :: "event list" where
  "marker_round =
     started @ [SubmitWord TIMEOUT_WORD, SimilarityResult (Inr 1)] @ replicate 30 Tick"

section \<open>The rounding of doubles\<close>

lemma int_le_power2: "(n::int) \<le> 2 ^ b \<Longrightarrow> of_int n \<le> (2::real) ^ b"
  by (metis of_int_le_iff of_int_numeral of_int_power)

lemma power2_le_int: "2 ^ b \<le> (n::int) \<Longrightarrow> (2::real) ^ b \<le> of_int n"
  by (metis of_int_le_iff of_int_numeral of_int_power)

lemma inverse_le_power2: "0 < x \<Longrightarrow> 1 / x \<le> 2 ^ (b::nat) \<Longrightarrow> 2 powi (- int b) \<le> (x::real)"
proof -
  assume "0 < x" "1 / x \<le> 2 ^ b"
  then have "1 / 2 ^ b \<le> x" by (simp add: field_simps)
  then show ?thesis by (simp add: power_int_minus inverse_eq_divide)
qed

lemma power2_less_inverse:
  "0 < x \<Longrightarrow> 0 < b \<Longrightarrow> 2 ^ (b - 1) < 1 / x \<Longrightarrow> (x::real) < 2 powi (- int b + 1)"
proof -
  assume "0 < x" "0 < b" "2 ^ (b - 1) < 1 / x"
  then have x: "x < 1 / 2 ^ (b - 1)" by (simp add: field_simps)
  from \<open>0 < b\<close> have "- int b + 1 = - int (b - 1)" by simp
  with x show ?thesis by (simp only: power_int_minus power_int_of_nat inverse_eq_divide)
qed

lemma bitlen_pos: "0 < m \<Longrightarrow> 1 \<le> bitlen m"
  using bitlen_eq_zero_iff [of m] bitlen_nonneg [of m] by linarith

lemma ilog2_bounds:
  assumes "0 < x"
  shows "2 powi ilog2 x \<le> x \<and> x < 2 powi (ilog2 x + 1)"
proof (cases "1 \<le> x")
  case True
  define m where "m = \<lfloor>x\<rfloor>"
  define k where "k = nat (bitlen m - 1)"
  from True have m: "0 < m" by (simp add: m_def)
  then have b: "1 \<le> bitlen m" by (rule bitlen_pos)
  from bitlen_bounds [OF m] have lo: "2 ^ k \<le> m" and hi: "m < 2 ^ nat (bitlen m)"
    by (simp_all add: k_def)
  from b have sk: "nat (bitlen m) = Suc k" by (simp add: k_def)
  have il: "ilog2 x = int k"
    using True b by (simp add: ilog2_def m_def k_def)
  have "(2::real) ^ k \<le> of_int m" using lo by (rule power2_le_int)
  also have "\<dots> \<le> x" by (simp add: m_def)
  finally have 1: "2 powi ilog2 x \<le> x" by (simp add: il)
  from hi sk have "m + 1 \<le> 2 ^ Suc k" by simp
  then have "of_int (m + 1) \<le> (2::real) ^ Suc k" by (rule int_le_power2)
  moreover have "x < of_int (m + 1)" by (simp add: m_def)
  ultimately have "x < (2::real) ^ Suc k" by linarith
  then have 2: "x < 2 powi (ilog2 x + 1)"
    by (simp add: il power_int_add)
  from 1 2 show ?thesis ..
next
  case False
  define n where "n = \<lceil>1 / x\<rceil>"
  define b where "b = nat (bitlen (n - 1))"
  from False assms have y: "1 < 1 / x" by simp
  then have n: "0 < n - 1" by (simp add: n_def less_ceiling_iff)
  then have b1: "1 \<le> bitlen (n - 1)" by (rule bitlen_pos)
  then have sb: "nat (bitlen (n - 1) - 1) = b - 1" and bpos: "0 < b"
    by (simp_all add: b_def nat_diff_distrib)
  from bitlen_bounds [OF n] have lo: "2 ^ (b - 1) \<le> n - 1" and hi: "n - 1 < 2 ^ b"
    unfolding sb b_def by simp_all
  have il: "ilog2 x = - int b"
    using False b1 by (simp add: ilog2_def n_def b_def)
  from hi have "n \<le> 2 ^ b" by simp
  then have "of_int n \<le> (2::real) ^ b" by (rule int_le_power2)
  moreover have "1 / x \<le> of_int n" by (simp add: n_def)
  ultimately have "1 / x \<le> 2 ^ b" by linarith
  with assms have 1: "2 powi ilog2 x \<le> x"
    unfolding il by (rule inverse_le_power2)
  from lo have "(2::real) ^ (b - 1) \<le> of_int (n - 1)" by (rule power2_le_int)
  moreover have "of_int (n - 1) < 1 / x"
    using ceiling_correct [of "1 / x"] by (simp add: n_def)
  ultimately have "2 ^ (b - 1) < 1 / x" by linarith
  with assms bpos have 2: "x < 2 powi (ilog2 x + 1)"
    unfolding il by (rule power2_less_inverse)
  from 1 2 show ?thesis ..
qed

text \<open>Some sums and products of the machine, as exact fractions.\<close>

lemma double_values:
  "double 0.65 * 2 ^ 53 = 5854679515581645"
  "double 0.01 * 2 ^ 59 = 5764607523034235"
  "double 0.2 * 2 ^ 55 = 7205759403792794"
  "double 0.51 * 2 ^ 53 = 4593671619917906"
  "double (3 * double 0.2) * 2 ^ 51 = 1351079888211149"
  "double (double 0.05 + double 0.01) * 2 ^ 57 = 8646911284551353"
  "double (double (double (double (0.25 + double 0.01) + double 0.01) + double 0.01)
     + double 0.01) * 2 ^ 54 = 5224175567749776"
  by code_simp+

section \<open>Properties of the rank evaluator\<close>

lemma rank_loop_hit:
  "k < length es \<Longrightarrow> entry_score (es ! k) \<le> sc \<Longrightarrow> (\<forall>j<k. sc < entry_score (es ! j))
   \<Longrightarrow> rank_loop sc es i = Some (i + k + 1)"
proof (induction es arbitrary: i k)
  case Nil
  then show ?case by simp
next
  case (Cons e es)
  show ?case
  proof (cases k)
    case 0
    with Cons.prems show ?thesis by auto
  next
    case (Suc k')
    from Cons.prems Suc have below: "sc < entry_score e" by auto
    from Cons.prems Suc have "k' < length es" "entry_score (es ! k') \<le> sc"
      "\<forall>j<k'. sc < entry_score (es ! j)" by auto
    then have "rank_loop sc es (i + 1) = Some (i + 1 + k' + 1)"
      by (rule Cons.IH)
    with below Suc show ?thesis by simp
  qed
qed

lemma rank_loop_miss:
  "(\<forall>e \<in> set es. sc < entry_score e) \<Longrightarrow> rank_loop sc es i = None"
  by (induction es arbitrary: i) auto

section \<open>The invariant holds in every reachable state\<close>

lemma run_snoc: "run (es @ [e]) = step (run es) e"
  by (simp add: run_def)

lemma startingWord_from_snoc:
  "startingWord_from s g (es @ [e]) =
     startingWord_step (foldl step s es) (startingWord_from s g es) e"
  by (induction es arbitrary: s g) simp_all

lemma startingWord_snoc:
  "startingWord (es @ [e]) = startingWord_step (run es) (startingWord es) e"
  by (simp add: startingWord_def run_def startingWord_from_snoc)

lemma session_inv_initial: "session_inv None initialApp"
  by (simp add: session_inv_def initialApp_def)

lemma startingWord_step_simps:
  "startingWord_step s g (SelectDifficulty d) = g"
  "startingWord_step s g (SubmitWord w) = g"
  "startingWord_step s g (SimilarityResult r) = g"
  "startingWord_step s g Tick = g"
  "startingWord_step s g (RandomWordResult (Inl msg)) = g"
  "startingWord_step s g (RandomWordResult (Inr fw)) = (if pending s = AwaitRandomWord then Some fw else g)"
  "startingWord_step s g Restart = (if gameState s = GAME_OVER then None else g)"
  by (simp_all add: startingWord_step_def)

lemma used_newWords: "w \<notin> allPreviouslyUsedWords s \<Longrightarrow> w \<notin> set (map newWord (history s))"
  by (auto simp: allPreviouslyUsedWords_def split: if_splits)

lemma submitted_distinct_snoc:
  "submitted_distinct h \<Longrightarrow> newWord a \<notin> set (map newWord h) \<Longrightarrow> submitted_distinct (h @ [a])"
  by (auto simp: submitted_distinct_def)

lemma submitted_distinct_timeout:
  "submitted_distinct h \<Longrightarrow> newWord a = TIMEOUT_WORD \<Longrightarrow> \<not> success a \<Longrightarrow> submitted_distinct (h @ [a])"
  by (auto simp: submitted_distinct_def)

lemma in_session_snoc:
  assumes "in_session g s" "previousWord a = currentWord s" "newWord a \<notin> allPreviouslyUsedWords s"
    "history s' = history s @ [a]" "difficulty s' = difficulty s"
  shows "in_session g s'"
proof -
  from assms(3) have "newWord a \<notin> set (map newWord (history s))"
    by (rule used_newWords)
  with assms(1) have "submitted_distinct (history s @ [a])"
    by (simp add: in_session_def submitted_distinct_snoc)
  with assms show ?thesis
    by (cases "history s") (simp_all add: in_session_def)
qed

lemma resolve_success:
  assumes "c_currentThreshold c \<le> sim"
  shows "handleSubmitWord_resolve c (Inr sim) s =
     s\<lparr> history := history s @ [\<lparr> previousWord = c_currentWord c, newWord = c_newWord c,
                             similarity = sim, success = True,
                             requiredThreshold = c_currentThreshold c,
                             points = totalPoints c sim \<rparr>],
        score := score s + totalPoints c sim,
        currentWord := c_newWord c,
        currentThreshold := double (currentThreshold s + double 0.01),
        lives := 3, timeLeft := 30, isLoading := False, pending := NoCall \<rparr>"
  using assms by (simp add: handleSubmitWord_resolve_def)

lemma resolve_failure:
  assumes "\<not> c_currentThreshold c \<le> sim"
  shows "handleSubmitWord_resolve c (Inr sim) s =
     (if c_lives c - 1 \<le> 0
      then s\<lparr> lives := c_lives c - 1, score := max 0 (score s - 1000),
              history := history s @ [\<lparr> previousWord = c_currentWord c, newWord = c_newWord c,
                             similarity = sim, success = False,
                             requiredThreshold = c_currentThreshold c,
                             points = - 1000 \<rparr>],
              isLoading := False, pending := NoCall, gameState := GAME_OVER \<rparr>
      else s\<lparr> lives := c_lives c - 1, score := max 0 (score s - 1000),
              history := history s @ [\<lparr> previousWord = c_currentWord c, newWord = c_newWord c,
                             similarity = sim, success = False,
                             requiredThreshold = c_currentThreshold c,
                             points = - 1000 \<rparr>],
              isLoading := False, pending := NoCall,
              error := Some (MsgLowSimilarity (c_lives c - 1)), timeLeft := 30 \<rparr>)"
  using assms by (simp add: handleSubmitWord_resolve_def Let_def)

lemma resolve_error:
  "handleSubmitWord_resolve c (Inl msg) s =
     s\<lparr> error := Some (MsgOracle msg), isLoading := False, pending := NoCall \<rparr>"
  by (simp add: handleSubmitWord_resolve_def)

lemma inv_SelectDifficulty:
  "session_inv g s \<Longrightarrow> session_inv (startingWord_step s g (SelectDifficulty d)) (step s (SelectDifficulty d))"
  by (auto simp: session_inv_def startingWord_step_def handleSelectDifficulty_begin_def)

lemma inv_RandomWordResult:
  assumes "session_inv g s"
  shows "session_inv (startingWord_step s g (RandomWordResult r)) (step s (RandomWordResult r))"
proof (cases "pending s = AwaitRandomWord")
  case False
  then have "step s (RandomWordResult r) = s"
    by (cases "pending s") simp_all
  moreover from False have "startingWord_step s g (RandomWordResult r) = g"
    by (cases r) (simp_all add: startingWord_step_def)
  ultimately show ?thesis using assms by simp
next
  case True
  with assms have sel: "gameState s = SELECTING_DIFFICULTY" "lives s = 3" "difficulty s \<noteq> None"
    "currentWord s = []" "history s = []" "g = None" "1 \<le> timeLeft s" "timeLeft s \<le> 30"
    by (simp_all add: session_inv_def)
  show ?thesis
  proof (cases r)
    case (Inl msg)
    with True sel show ?thesis
      by (simp add: session_inv_def startingWord_step_def handleSelectDifficulty_resolve_def)
  next
    case (Inr w)
    with True sel show ?thesis
      by (simp add: session_inv_def startingWord_step_def handleSelectDifficulty_resolve_def
          in_session_def submitted_distinct_def)
  qed
qed

lemma inv_SubmitWord:
  assumes "session_inv g s"
  shows "session_inv (startingWord_step s g (SubmitWord w)) (step s (SubmitWord w))"
proof -
  note g = startingWord_step_simps
  show ?thesis
  proof (cases "gameState s = PLAYING \<and> \<not> isLoading s \<and> w \<noteq> []")
    case False
    then have "step s (SubmitWord w) = s" by auto
    with g assms show ?thesis by simp
  next
    case True
    with assms have pl: "pending s = NoCall" "in_session g s" "1 \<le> lives s" "lives s \<le> 3"
      "1 \<le> timeLeft s" "timeLeft s \<le> 30"
      by (simp_all add: session_inv_def)
    show ?thesis
    proof (cases "difficulty s")
      case None
      with True have "step s (SubmitWord w) = s" by (simp add: handleSubmitWord_begin_def)
      with g assms show ?thesis by simp
    next
      case (Some d)
      consider "currentWord s = []" | "currentWord s \<noteq> []" "w \<in> allPreviouslyUsedWords s"
        | "currentWord s \<noteq> []" "w \<notin> allPreviouslyUsedWords s" by blast
      then show ?thesis
      proof cases
        case 1
        with True Some have "step s (SubmitWord w) = s" by (simp add: handleSubmitWord_begin_def)
        with g assms show ?thesis by simp
      next
        case 2
        with True Some have "step s (SubmitWord w) = s\<lparr> error := Some MsgUsedWord \<rparr>"
          by (simp add: handleSubmitWord_begin_def)
        with g assms pl show ?thesis
          by (simp add: session_inv_def in_session_def closure_ok_def allPreviouslyUsedWords_def)
      next
        case 3
        with True Some pl show ?thesis
          by (simp add: g session_inv_def handleSubmitWord_begin_def in_session_def closure_ok_def
              allPreviouslyUsedWords_def split: if_splits)
      qed
    qed
  qed
qed

lemma inv_SimilarityResult:
  assumes "session_inv g s"
  shows "session_inv (startingWord_step s g (SimilarityResult r)) (step s (SimilarityResult r))"
proof (cases "pending s")
  case NoCall
  with assms show ?thesis by (simp add: startingWord_step_simps)
next
  case AwaitRandomWord
  with assms show ?thesis by (simp add: startingWord_step_simps)
next
  case (AwaitSimilarity c)
  from assms AwaitSimilarity have playing: "gameState s = PLAYING"
    by (cases "gameState s") (simp_all add: session_inv_def)
  with assms AwaitSimilarity have ok: "closure_ok c s" and pl: "gameState s = PLAYING"
    "in_session g s" "1 \<le> lives s" "lives s \<le> 3" "1 \<le> timeLeft s" "timeLeft s \<le> 30"
    by (simp_all add: session_inv_def)
  let ?s' = "handleSubmitWord_resolve c r s"
  have st: "step s (SimilarityResult r) = ?s'"
    using AwaitSimilarity by simp
  show ?thesis
  proof (cases r)
    case (Inl msg)
    with pl AwaitSimilarity show ?thesis
      by (simp add: startingWord_step_simps session_inv_def resolve_error in_session_def)
  next
    case (Inr sim)
    show ?thesis
    proof (cases "c_currentThreshold c \<le> sim")
      case True
      note eq = resolve_success [OF True, of s]
      have "in_session g ?s'"
        using ok
        by (intro in_session_snoc [OF pl(2)]) (simp_all add: closure_ok_def Inr eq)
      with pl show ?thesis
        unfolding st by (simp add: startingWord_step_simps session_inv_def Inr eq)
    next
      case False
      note eq = resolve_failure [OF False, of s]
      have "in_session g ?s'"
        using ok
        by (intro in_session_snoc [OF pl(2)]) (simp_all add: closure_ok_def Inr eq)
      moreover from ok have "c_lives c = lives s" by (simp add: closure_ok_def)
      ultimately show ?thesis using pl
        unfolding st by (simp add: startingWord_step_simps session_inv_def Inr eq)
    qed
  qed
qed

lemma inv_Tick:
  assumes "session_inv g s"
  shows "session_inv (startingWord_step s g Tick) (step s Tick)"
proof -
  note g = startingWord_step_simps
  show ?thesis
  proof (cases "gameState s = PLAYING \<and> \<not> isLoading s")
    case False
    then have "step s Tick = s" by auto
    with g assms show ?thesis by simp
  next
    case True
    with assms have pl: "pending s = NoCall" "in_session g s" "1 \<le> lives s" "lives s \<le> 3"
      "1 \<le> timeLeft s" "timeLeft s \<le> 30"
      by (simp_all add: session_inv_def)
    show ?thesis
    proof (cases "timeLeft s \<le> 1")
      case False
      with True pl show ?thesis
        by (simp add: g session_inv_def interval_callback_def in_session_def)
    next
      case tl: True
      from pl have sd: "submitted_distinct (history s @ [\<lparr> previousWord = currentWord s, newWord = TIMEOUT_WORD,
                      similarity = 0, success = False,
                      requiredThreshold = currentThreshold s, points = - 1000 \<rparr>])"
        by (simp add: in_session_def submitted_distinct_timeout)
      show ?thesis
      proof (cases "lives s - 1 \<le> 0")
        case True
        with \<open>gameState s = PLAYING \<and> \<not> isLoading s\<close> tl pl sd show ?thesis
          by (simp add: g session_inv_def interval_callback_def handleTimeout_def in_session_def Let_def)
      next
        case False
        with \<open>gameState s = PLAYING \<and> \<not> isLoading s\<close> tl pl sd show ?thesis
          by (simp add: g session_inv_def interval_callback_def handleTimeout_def in_session_def Let_def)
      qed
    qed
  qed
qed

lemma inv_Restart:
  assumes "session_inv g s"
  shows "session_inv (startingWord_step s g Restart) (step s Restart)"
proof (cases "gameState s = GAME_OVER")
  case False
  then have "step s Restart = s" "startingWord_step s g Restart = g"
    by (simp_all add: startingWord_step_def)
  with assms show ?thesis by simp
next
  case True
  with assms have "pending s = NoCall" "lives s = 0" "1 \<le> timeLeft s" "timeLeft s \<le> 30" "\<not> isLoading s"
    by (simp_all add: session_inv_def)
  with True show ?thesis
    by (simp add: session_inv_def startingWord_step_def handleRestart_def)
qed

lemma session_inv_step:
  "session_inv g s \<Longrightarrow> session_inv (startingWord_step s g e) (step s e)"
  by (cases e)
     (simp_all only: inv_SelectDifficulty inv_RandomWordResult inv_SubmitWord
        inv_SimilarityResult inv_Tick inv_Restart)

lemma session_inv_run: "session_inv (startingWord es) (run es)"
proof (induction es rule: rev_induct)
  case Nil
  show ?case by (simp add: startingWord_def run_def session_inv_initial)
next
  case (snoc e es)
  then show ?case by (simp only: run_snoc startingWord_snoc session_inv_step)
qed

section \<open>Facts about the sample sessions\<close>

lemma run_started:
  "run started = \<lparr> gameState = PLAYING, difficulty = Some scenario_difficulty, currentThreshold = 0.5,
       score = 0, currentWord = ''a'', history = [], lives = 3, isLoading = False,
       error = None, timeLeft = 30, pending = NoCall \<rparr>"
  by (simp add: run_def started_def initialApp_def scenario_difficulty_def handleSelectDifficulty_begin_def
      handleSelectDifficulty_resolve_def)

lemma run_first_success:
  "run first_success =
     \<lparr> gameState = PLAYING, difficulty = Some scenario_difficulty,
       currentThreshold = 4593671619917906 / 2 ^ 53, score = 3600, currentWord = ''b'',
       history = [\<lparr> previousWord = ''a'', newWord = ''b'',
                    similarity = 5854679515581645 / 2 ^ 53, success = True,
                    requiredThreshold = 0.5, points = 3600 \<rparr>],
       lives = 3, isLoading = False, error = None, timeLeft = 30, pending = NoCall \<rparr>"
  by code_simp

lemma run_last_second:
  "gameState (run last_second) = PLAYING \<and> \<not> isLoading (run last_second) \<and>
   timeLeft (run last_second) = 1 \<and> lives (run last_second) = 3 \<and>
   score (run last_second) = 0 \<and> history (run last_second) = [] \<and>
   currentWord (run last_second) = ''a'' \<and> currentThreshold (run last_second) = 0.5"
  by code_simp

lemma run_last_life:
  "gameState (run last_life) = PLAYING \<and> \<not> isLoading (run last_life) \<and>
   timeLeft (run last_life) = 1 \<and> lives (run last_life) = 1"
  by code_simp

lemma run_marker_round:
  "run marker_round =
     \<lparr> gameState = PLAYING, difficulty = Some scenario_difficulty,
       currentThreshold = 4593671619917906 / 2 ^ 53, score = 11000,
       currentWord = TIMEOUT_WORD,
       history =
         [\<lparr> previousWord = ''a'', newWord = TIMEOUT_WORD, similarity = 1, success = True,
            requiredThreshold = 0.5, points = 12000 \<rparr>,
          \<lparr> previousWord = TIMEOUT_WORD, newWord = TIMEOUT_WORD, similarity = 0,
            success = False, requiredThreshold = 4593671619917906 / 2 ^ 53,
            points = - 1000 \<rparr>],
       lives = 2, isLoading = False, error = Some (MsgTimeout 2), timeLeft = 30,
       pending = NoCall \<rparr>"
  by code_simp

section \<open>Facts about the handlers\<close>

lemma handleTimeout_eq:
  "handleTimeout s =
     (if lives s - 1 \<le> 0
      then s\<lparr> lives := lives s - 1, score := max 0 (score s - 1000),
              history := history s @ [\<lparr> previousWord = currentWord s, newWord = TIMEOUT_WORD,
                      similarity = 0, success = False,
                      requiredThreshold = currentThreshold s, points = - 1000 \<rparr>],
              gameState := GAME_OVER \<rparr>
      else s\<lparr> lives := lives s - 1, score := max 0 (score s - 1000),
              history := history s @ [\<lparr> previousWord = currentWord s, newWord = TIMEOUT_WORD,
                      similarity = 0, success = False,
                      requiredThreshold = currentThreshold s, points = - 1000 \<rparr>],
              error := Some (MsgTimeout (lives s - 1)), timeLeft := 30 \<rparr>)"
  by (simp add: handleTimeout_def Let_def)

lemma handleSubmitWord_begin_guard:
  "difficulty s = None \<or> currentWord s = [] \<Longrightarrow> handleSubmitWord_begin w s = s"
  by (cases "difficulty s") (auto simp: handleSubmitWord_begin_def)



lemma ticks_in_flight:
  "isLoading s \<Longrightarrow> foldl step s (replicate n Tick) = s"
  by (induction n) simp_all

section \<open>The claims\<close>

subsection \<open>C1: the points of a successful submission\<close>

text \<open>
  C1. When a submission succeeds (the similarity reaches the threshold), the points are
  \<open>basePoints = round ((similarity - threshold) * 10000)\<close>,
  \<open>roundNumber = 1 +\<close> the number of successful attempts so far,
  \<open>bonus = round (basePoints * (roundNumber * 0.2))\<close> and
  \<open>points = round ((basePoints + bonus) * multiplier)\<close>, each difference, product and sum
  being the machine's, rounded to a double, and \<open>round\<close> being \<^verbatim>\<open>Math.round\<close>. The
  score grows by the points, the threshold becomes the double sum of itself and 0.01, the
  current word becomes the candidate, lives are back at 3, the timer at 30, and an attempt
  with \<open>success = True\<close> is appended. With threshold 0.5, multiplier 2 and similarity
  0.65 on the first attempt: 1500, 300 and 3600 points, and the threshold becomes the
  double 0.51. At threshold 0.5 the double nearest to 0.50605 gives 61 base points (the
  product is the tie 60.5, which goes up) and the double nearest to 0.50005 gives none.
  The theorem is stated for finite doubles in the ranges of a session (similarity at most
  1, threshold above 0, a multiplier and a history of moderate size), where no operation
  overflows.
\<close>

theorem submit_success:
  assumes enabled: "gameState s = PLAYING" "\<not> isLoading s" "w \<noteq> []"
    and guards: "difficulty s = Some d" "currentWord s \<noteq> []" "w \<notin> allPreviouslyUsedWords s"
    and succ: "sim \<ge> currentThreshold s"
    and range: "is_double sim" "is_double (currentThreshold s)"
      "is_double (multiplier d)" "sim \<le> 1" "0 < currentThreshold s"
      "\<bar>multiplier d\<bar> \<le> 2 ^ 64" "length (history s) < 2 ^ 32"
  defines "bp \<equiv> Math_round (double (double (sim - currentThreshold s) * 10000))"
    and "rn \<equiv> 1 + length (filter success (history s))"
  defines "bonus \<equiv> Math_round (double (real_of_int bp * double (real rn * double 0.2)))"
  defines "pts \<equiv>
    Math_round (double (double (real_of_int bp + real_of_int bonus) * multiplier d))"
  defines "s' \<equiv> step (step s (SubmitWord w)) (SimilarityResult (Inr sim))"
  shows "score s' = score s + pts \<and>
         currentThreshold s' = double (currentThreshold s + double 0.01) \<and>
         currentWord s' = w \<and> lives s' = 3 \<and> timeLeft s' = 30 \<and>
         history s' = history s @
           [\<lparr> previousWord = currentWord s, newWord = w, similarity = sim, success = True,
              requiredThreshold = currentThreshold s, points = pts \<rparr>] \<and>
         gameState s' = PLAYING \<and>
         basePoints (double 0.65) 0.5 = 1500 \<and>
         bonusPoints 1500 (roundNumber []) = 300 \<and>
         map points (history (run first_success)) = [3600] \<and>
         score (run first_success) = 3600 \<and>
         currentThreshold (run first_success) = double 0.51 \<and>
         currentThreshold (run first_success) * 2 ^ 53 = 4593671619917906 \<and>
         basePoints (double 0.50605) 0.5 = 61 \<and>
         basePoints (double 0.50005) 0.5 = 0"
proof -
  let ?c = "\<lparr> c_newWord = w, c_currentWord = currentWord s, c_difficulty = d,
              c_currentThreshold = currentThreshold s, c_history = history s,
              c_lives = lives s \<rparr>"
  have issued: "step s (SubmitWord w) = s\<lparr> isLoading := True, error := None, pending := AwaitSimilarity ?c \<rparr>"
    using enabled guards by (simp add: handleSubmitWord_begin_def)
  have pts: "totalPoints ?c sim = pts"
    by (simp add: totalPoints_def basePoints_def bonusPoints_def roundNumber_def
        pts_def bonus_def bp_def rn_def Let_def)
  have "s' = handleSubmitWord_resolve ?c (Inr sim) (s\<lparr> isLoading := True, error := None, pending := AwaitSimilarity ?c \<rparr>)"
    unfolding s'_def issued by simp
  also have "\<dots> = s\<lparr> isLoading := True, error := None, pending := AwaitSimilarity ?c,
        history := history s @ [\<lparr> previousWord = currentWord s, newWord = w,
                             similarity = sim, success = True,
                             requiredThreshold = currentThreshold s,
                             points = pts \<rparr>],
        score := score s + pts,
        currentWord := w,
        currentThreshold := double (currentThreshold s + double 0.01),
        lives := 3, timeLeft := 30, isLoading := False, pending := NoCall \<rparr>"
    using succ by (simp add: resolve_success pts)
  finally have eq: "s' = \<dots>" .
  have ex1: "basePoints (double 0.65) 0.5 = 1500 \<and> bonusPoints 1500 (roundNumber []) = 300"
    by code_simp
  have ex2: "map points (history (run first_success)) = [3600] \<and>
         score (run first_success) = 3600"
    by (simp add: run_first_success)
  have ex3: "currentThreshold (run first_success) = double 0.51 \<and>
         currentThreshold (run first_success) * 2 ^ 53 = 4593671619917906"
    using double_values(4) by (simp add: run_first_success)
  have ex4: "basePoints (double 0.50605) 0.5 = 61 \<and> basePoints (double 0.50005) 0.5 = 0"
    by code_simp
  have fields: "score s' = score s + pts \<and>
         currentThreshold s' = double (currentThreshold s + double 0.01) \<and>
         currentWord s' = w \<and> lives s' = 3 \<and> timeLeft s' = 30 \<and>
         history s' = history s @
           [\<lparr> previousWord = currentWord s, newWord = w, similarity = sim, success = True,
              requiredThreshold = currentThreshold s, points = pts \<rparr>] \<and>
         gameState s' = PLAYING"
    using enabled(1) by (simp add: eq)
  from fields ex1 ex2 ex3 ex4 show ?thesis
    by blast
qed

theorem submit_success_witness:
  "lives (step (step (run started) (SubmitWord ''b'')) (SimilarityResult (Inr (double 0.65)))) = 3 \<and>
   timeLeft (step (step (run started) (SubmitWord ''b'')) (SimilarityResult (Inr (double 0.65)))) = 30 \<and>
   currentWord (step (step (run started) (SubmitWord ''b'')) (SimilarityResult (Inr (double 0.65)))) = ''b'' \<and>
   gameState (step (step (run started) (SubmitWord ''b'')) (SimilarityResult (Inr (double 0.65)))) = PLAYING \<and>
   score (run first_success) = 3600"
proof -
  have s: "run started = \<lparr> gameState = PLAYING, difficulty = Some scenario_difficulty, currentThreshold = 0.5,
       score = 0, currentWord = ''a'', history = [], lives = 3, isLoading = False,
       error = None, timeLeft = 30, pending = NoCall \<rparr>"
    by (simp add: run_def started_def initialApp_def scenario_difficulty_def handleSelectDifficulty_begin_def
        handleSelectDifficulty_resolve_def)
  have h: "gameState (run started) = PLAYING" "\<not> isLoading (run started)" "''b'' \<noteq> []"
    "difficulty (run started) = Some scenario_difficulty" "currentWord (run started) \<noteq> []"
    "''b'' \<notin> allPreviouslyUsedWords (run started)"
    by (simp_all add: s allPreviouslyUsedWords_def)
  have r: "double 0.65 \<ge> currentThreshold (run started)" "is_double (double 0.65)"
    "is_double (currentThreshold (run started))"
    "is_double (multiplier scenario_difficulty)" "double 0.65 \<le> 1"
    "0 < currentThreshold (run started)"
    by code_simp+
  have b: "\<bar>multiplier scenario_difficulty\<bar> \<le> 2 ^ 64"
    "length (history (run started)) < 2 ^ 32"
    by (simp_all add: s scenario_difficulty_def)
  show ?thesis
    using submit_success [OF h r b] run_first_success by (simp del: step.simps)
qed

subsection \<open>C2: the rank evaluator\<close>

text \<open>
  C2, as the specification states it, is refuted by a tie in a full leaderboard: a score of
  50 against three entries that are all at least 50, the last one exactly 50, is ranked
  third and not left unranked. Nor is 50 third against just any two entries: against 40
  and 30 it is first.
\<close>

theorem calculateRank_tie_counterexample:
  "calculateRank 50 [\<lparr>entry_name = ''a'', entry_score = 500\<rparr>, \<lparr>entry_name = ''b'', entry_score = 300\<rparr>,
                     \<lparr>entry_name = ''c'', entry_score = 50\<rparr>] = Some 3 \<and>
   calculateRank 50 [\<lparr>entry_name = ''a'', entry_score = 40\<rparr>, \<lparr>entry_name = ''b'', entry_score = 30\<rparr>]
     = Some 1"
  by (simp add: calculateRank_def)

text \<open>
  C2, amended. \<^verbatim>\<open>calculateRank\<close> returns nothing for a score that is not positive;
  otherwise one plus the index of the first entry, in order, whose score the candidate
  reaches (a tie takes the rank of the entry it ties with); when the candidate reaches
  no entry, the length plus one if there are fewer than three entries, and nothing
  otherwise. So: score 0 is unranked; 300 against 500, 300, 100 is second; 50 against two
  entries above 50 is third; 50 against three entries all above 50 is unranked.
\<close>

theorem calculateRank_contract:
  "(sc \<le> 0 \<longrightarrow> calculateRank sc lb = None) \<and>
   (0 < sc \<and> k < length lb \<and> entry_score (lb ! k) \<le> sc \<and> (\<forall>j<k. sc < entry_score (lb ! j))
      \<longrightarrow> calculateRank sc lb = Some (k + 1)) \<and>
   (0 < sc \<and> (\<forall>e \<in> set lb. sc < entry_score e) \<and> length lb < 3
      \<longrightarrow> calculateRank sc lb = Some (length lb + 1)) \<and>
   (0 < sc \<and> (\<forall>e \<in> set lb. sc < entry_score e) \<and> \<not> length lb < 3
      \<longrightarrow> calculateRank sc lb = None) \<and>
   calculateRank 0 lb = None \<and>
   calculateRank 300 [\<lparr>entry_name = n1, entry_score = 500\<rparr>, \<lparr>entry_name = n2, entry_score = 300\<rparr>,
                      \<lparr>entry_name = n3, entry_score = 100\<rparr>] = Some 2 \<and>
   (50 < entry_score e1 \<and> 50 < entry_score e2 \<longrightarrow> calculateRank 50 [e1, e2] = Some 3) \<and>
   (50 < entry_score e1 \<and> 50 < entry_score e2 \<and> 50 < entry_score e3
      \<longrightarrow> calculateRank 50 [e1, e2, e3] = None)"
proof -
  have a: "sc \<le> 0 \<longrightarrow> calculateRank sc lb = None"
    by (simp add: calculateRank_def)
  have b: "0 < sc \<and> k < length lb \<and> entry_score (lb ! k) \<le> sc \<and> (\<forall>j<k. sc < entry_score (lb ! j))
      \<longrightarrow> calculateRank sc lb = Some (k + 1)"
    using rank_loop_hit [of k lb sc 0] by (simp add: calculateRank_def)
  have c: "0 < sc \<and> (\<forall>e \<in> set lb. sc < entry_score e) \<and> length lb < 3
      \<longrightarrow> calculateRank sc lb = Some (length lb + 1)"
    using rank_loop_miss [of lb sc 0] by (simp add: calculateRank_def)
  have d: "0 < sc \<and> (\<forall>e \<in> set lb. sc < entry_score e) \<and> \<not> length lb < 3
      \<longrightarrow> calculateRank sc lb = None"
    using rank_loop_miss [of lb sc 0] by (simp add: calculateRank_def)
  have e: "calculateRank 0 lb = None"
    by (simp add: calculateRank_def)
  have f: "calculateRank 300 [\<lparr>entry_name = n1, entry_score = 500\<rparr>, \<lparr>entry_name = n2, entry_score = 300\<rparr>,
                      \<lparr>entry_name = n3, entry_score = 100\<rparr>] = Some 2"
    by (simp add: calculateRank_def)
  have g: "50 < entry_score e1 \<and> 50 < entry_score e2 \<longrightarrow> calculateRank 50 [e1, e2] = Some 3"
    by (simp add: calculateRank_def)
  have h: "50 < entry_score e1 \<and> 50 < entry_score e2 \<and> 50 < entry_score e3
      \<longrightarrow> calculateRank 50 [e1, e2, e3] = None"
    by (simp add: calculateRank_def)
  from a b c d e f g h show ?thesis by blast
qed

theorem calculateRank_contract_witness:
  "calculateRank (- 5) [] = None \<and>
   calculateRank 300 [\<lparr>entry_name = ''a'', entry_score = 500\<rparr>, \<lparr>entry_name = ''b'', entry_score = 300\<rparr>,
                      \<lparr>entry_name = ''c'', entry_score = 100\<rparr>] = Some 2 \<and>
   calculateRank 50 [\<lparr>entry_name = ''a'', entry_score = 500\<rparr>, \<lparr>entry_name = ''b'', entry_score = 300\<rparr>] = Some 3 \<and>
   calculateRank 50 [\<lparr>entry_name = ''a'', entry_score = 500\<rparr>, \<lparr>entry_name = ''b'', entry_score = 300\<rparr>,
                     \<lparr>entry_name = ''c'', entry_score = 100\<rparr>] = None"
  using calculateRank_contract [of "- 5" "[]"]
    calculateRank_contract [of 300 "[\<lparr>entry_name = ''a'', entry_score = 500\<rparr>, \<lparr>entry_name = ''b'', entry_score = 300\<rparr>,
                      \<lparr>entry_name = ''c'', entry_score = 100\<rparr>]" 1]
    calculateRank_contract [of 50 "[\<lparr>entry_name = ''a'', entry_score = 500\<rparr>, \<lparr>entry_name = ''b'', entry_score = 300\<rparr>]"]
    calculateRank_contract [of 50 "[\<lparr>entry_name = ''a'', entry_score = 500\<rparr>, \<lparr>entry_name = ''b'', entry_score = 300\<rparr>,
                      \<lparr>entry_name = ''c'', entry_score = 100\<rparr>]"]
  by (simp add: less_Suc_eq)

subsection \<open>C3: a failed start\<close>

text \<open>
  C3, as stated, is refuted from the initial state: when the oracle fails to deliver the
  starting word, the difficulty and the threshold are those of the selected difficulty and
  not what they were before.
\<close>

theorem start_failure_counterexample:
  "difficulty (run []) = None \<and> currentThreshold (run []) = 0 \<and>
   gameState (run failed_start) = SELECTING_DIFFICULTY \<and>
   error (run failed_start) = Some (MsgOracle ''down'') \<and>
   difficulty (run failed_start) = Some scenario_difficulty \<and> currentThreshold (run failed_start) = 0.5"
  by (simp add: run_def failed_start_def initialApp_def scenario_difficulty_def handleSelectDifficulty_begin_def
      handleSelectDifficulty_resolve_def)

text \<open>
  C3, amended. \<^verbatim>\<open>handleSelectDifficulty\<close> writes the difficulty, the threshold and the
  fresh values of history, score, lives and timer before it calls the oracle. When the call
  fails, the session is still selecting a difficulty, the error is shown, the current word
  is unchanged, and those six cells hold what was written: the selected difficulty, its
  threshold, an empty history, score 0, 3 lives and 30 seconds.
\<close>

theorem start_failure:
  assumes "gameState s = SELECTING_DIFFICULTY" "\<not> isLoading s"
  shows "step (step s (SelectDifficulty d)) (RandomWordResult (Inl msg)) =
           s\<lparr> difficulty := Some d, currentThreshold := threshold d, history := [], score := 0,
              lives := 3, timeLeft := 30, error := Some (MsgOracle msg), pending := NoCall \<rparr>"
  using assms
  by (simp add: handleSelectDifficulty_begin_def handleSelectDifficulty_resolve_def)

theorem start_failure_witness:
  "step (step initialApp (SelectDifficulty scenario_difficulty)) (RandomWordResult (Inl ''down'')) =
     \<lparr> gameState = SELECTING_DIFFICULTY, difficulty = Some scenario_difficulty, currentThreshold = 0.5,
       score = 0, currentWord = [], history = [], lives = 3, isLoading = False,
       error = Some (MsgOracle ''down''), timeLeft = 30, pending = NoCall \<rparr>"
proof -
  have h: "gameState initialApp = SELECTING_DIFFICULTY" "\<not> isLoading initialApp"
    by (simp_all add: initialApp_def)
  show ?thesis
    unfolding start_failure [OF h] by (simp add: initialApp_def scenario_difficulty_def)
qed

subsection \<open>C4: lives and the end of the game\<close>

text \<open>
  C4, as stated, is refuted by a restart: \<^verbatim>\<open>handleRestart\<close> leaves the lives as they
  are, so after a restart there are no lives left and the game is not over.
\<close>

theorem restart_counterexample:
  "lives (run restarted) = 0 \<and> gameState (run restarted) = SELECTING_DIFFICULTY"
  by code_simp

text \<open>
  C4, amended. In every reachable state the lives are between 0 and 3; when the game is
  over there are no lives left; while playing there is at least one. So, except while
  selecting a difficulty, the game is over exactly when no lives are left.
\<close>

theorem lives_invariant:
  "0 \<le> lives (run es) \<and> lives (run es) \<le> 3 \<and>
   (gameState (run es) = GAME_OVER \<longrightarrow> lives (run es) = 0) \<and>
   (gameState (run es) = PLAYING \<longrightarrow> 1 \<le> lives (run es)) \<and>
   (gameState (run es) \<noteq> SELECTING_DIFFICULTY \<longrightarrow>
      (gameState (run es) = GAME_OVER \<longleftrightarrow> lives (run es) = 0))"
proof -
  have "session_inv (startingWord es) (run es)"
    by (rule session_inv_run)
  then show ?thesis
    by (cases "gameState (run es)") (simp_all add: session_inv_def)
qed

theorem lives_invariant_witness:
  "gameState (run three_failures) = GAME_OVER \<and> lives (run three_failures) = 0 \<and>
   gameState (run started) = PLAYING \<and> 1 \<le> lives (run started)"
proof -
  have over: "gameState (run three_failures) = GAME_OVER"
    by code_simp
  have playing: "gameState (run started) = PLAYING"
    by code_simp
  show ?thesis
    using lives_invariant [of three_failures] lives_invariant [of started] over playing
    by simp
qed

subsection \<open>C5: a failed similarity call\<close>

text \<open>
  C5. When a submission has called the oracle and the call fails, the error is reported
  and the state is the one before the submission apart from the error shown: no attempt
  is recorded, and lives, timer, score, threshold, current word and phase are unchanged.
  The same word can be submitted again.
\<close>

theorem submit_oracle_failure:
  fixes msg :: string
  assumes "\<not> isLoading s" "pending s = NoCall"
    and called: "pending (step s (SubmitWord w)) \<noteq> NoCall"
  defines "s' \<equiv> step (step s (SubmitWord w)) (SimilarityResult (Inl msg))"
  shows "s' = s\<lparr> error := Some (MsgOracle msg) \<rparr> \<and>
         history s' = history s \<and> lives s' = lives s \<and> timeLeft s' = timeLeft s \<and>
         score s' = score s \<and> currentThreshold s' = currentThreshold s \<and>
         currentWord s' = currentWord s \<and> gameState s' = gameState s \<and>
         pending (step s' (SubmitWord w)) \<noteq> NoCall"
proof -
  from called assms(2) have en: "gameState s = PLAYING" "w \<noteq> []"
    by (auto split: if_splits)
  from called assms(2) en assms(1)
  obtain d where d: "difficulty s = Some d" "currentWord s \<noteq> []" "w \<notin> allPreviouslyUsedWords s"
    by (cases "difficulty s") (auto simp: handleSubmitWord_begin_def split: if_splits)
  let ?c = "\<lparr> c_newWord = w, c_currentWord = currentWord s, c_difficulty = d,
              c_currentThreshold = currentThreshold s, c_history = history s,
              c_lives = lives s \<rparr>"
  have issued: "step s (SubmitWord w) =
      s\<lparr> isLoading := True, error := None, pending := AwaitSimilarity ?c \<rparr>"
    using en d assms(1) by (simp add: handleSubmitWord_begin_def)
  have eq: "s' = s\<lparr> error := Some (MsgOracle msg) \<rparr>"
    unfolding s'_def issued using assms(1,2) by (simp add: resolve_error)
  have again: "pending (step (s\<lparr> error := Some (MsgOracle msg) \<rparr>) (SubmitWord w)) \<noteq> NoCall"
  proof -
    have "allPreviouslyUsedWords (s\<lparr> error := Some (MsgOracle msg) \<rparr>) = allPreviouslyUsedWords s"
      by (simp add: allPreviouslyUsedWords_def)
    with en d assms(1) show ?thesis
      by (simp add: handleSubmitWord_begin_def)
  qed
  show ?thesis
    unfolding eq using again by simp
qed

theorem submit_oracle_failure_witness:
  "step (step (run started) (SubmitWord ''b'')) (SimilarityResult (Inl ''down'')) =
     (run started)\<lparr> error := Some (MsgOracle ''down'') \<rparr>"
proof -
  have h: "\<not> isLoading (run started)" "pending (run started) = NoCall"
    "pending (step (run started) (SubmitWord ''b'')) \<noteq> NoCall"
    by (simp_all add: run_started handleSubmitWord_begin_def allPreviouslyUsedWords_def)
  show ?thesis
    using submit_oracle_failure [OF h] by (simp del: step.simps)
qed

subsection \<open>C6: words already used\<close>

text \<open>
  C6, as stated, is refuted by the word that timeouts record: the player submits that very
  word, the oracle accepts it, it becomes the current word, and the timeout of the next
  round records it again. The current word is then present twice as a \<open>newWord\<close> in
  the history.
\<close>

theorem marker_round_counterexample:
  "currentWord (run marker_round) = TIMEOUT_WORD \<and>
   map newWord (history (run marker_round)) = [TIMEOUT_WORD, TIMEOUT_WORD] \<and>
   map success (history (run marker_round)) = [True, False] \<and>
   gameState (run marker_round) = PLAYING"
  by (simp add: run_marker_round)

text \<open>
  C6, amended. In every reachable state a submission of a word in \<open>usedWords\<close> (the
  starting word plus every \<open>newWord\<close> in the history) is rejected before the oracle is
  called: no call becomes pending, and score, lives, timer and history are unchanged.
  Outside the selection of a difficulty the set that \<^verbatim>\<open>handleSubmitWord\<close> builds is
  \<open>usedWords\<close>. Consequently no word is recorded twice as the \<open>newWord\<close> of successful
  attempts, and no word other than the one recorded by timeouts is recorded twice as a
  \<open>newWord\<close> at all.
\<close>

theorem used_word_rejected:
  "(w \<in> usedWords es \<longrightarrow>
      pending (handleSubmitWord_begin w (run es)) = pending (run es) \<and>
      score (handleSubmitWord_begin w (run es)) = score (run es) \<and>
      lives (handleSubmitWord_begin w (run es)) = lives (run es) \<and>
      timeLeft (handleSubmitWord_begin w (run es)) = timeLeft (run es) \<and>
      history (handleSubmitWord_begin w (run es)) = history (run es) \<and>
      (step (run es) (SubmitWord w) = run es \<or>
       step (run es) (SubmitWord w) = (run es)\<lparr> error := Some MsgUsedWord \<rparr>)) \<and>
   (gameState (run es) \<noteq> SELECTING_DIFFICULTY \<longrightarrow>
      allPreviouslyUsedWords (run es) = usedWords es) \<and>
   distinct (map newWord (filter success (history (run es)))) \<and>
   distinct (filter (\<lambda>v. v \<noteq> TIMEOUT_WORD) (map newWord (history (run es))))"
proof -
  define s where "s = run es"
  have inv: "session_inv (startingWord es) s"
    unfolding s_def by (rule session_inv_run)
  have same: "allPreviouslyUsedWords s = usedWords es"
    if "gameState s \<noteq> SELECTING_DIFFICULTY"
  proof -
    from inv that have "in_session (startingWord es) s"
      by (simp add: session_inv_def)
    then show ?thesis
      by (simp add: in_session_def usedWords_def allPreviouslyUsedWords_def s_def)
  qed
  have handler: "handleSubmitWord_begin w s = s \<or>
      handleSubmitWord_begin w s = s\<lparr> error := Some MsgUsedWord \<rparr>"
    if used: "w \<in> usedWords es"
  proof (cases "gameState s = SELECTING_DIFFICULTY")
    case True
    with inv have "currentWord s = []"
      by (simp add: session_inv_def)
    then show ?thesis
      by (simp add: handleSubmitWord_begin_guard)
  next
    case False
    with used same have "w \<in> allPreviouslyUsedWords s"
      by simp
    then show ?thesis
      by (cases "difficulty s") (simp_all add: handleSubmitWord_begin_def)
  qed
  have rejected: "pending (handleSubmitWord_begin w s) = pending s \<and>
      score (handleSubmitWord_begin w s) = score s \<and>
      lives (handleSubmitWord_begin w s) = lives s \<and>
      timeLeft (handleSubmitWord_begin w s) = timeLeft s \<and>
      history (handleSubmitWord_begin w s) = history s \<and>
      (step s (SubmitWord w) = s \<or> step s (SubmitWord w) = s\<lparr> error := Some MsgUsedWord \<rparr>)"
    if used: "w \<in> usedWords es"
    using handler [OF used] by auto
  have "submitted_distinct (history s)"
  proof (cases "gameState s = SELECTING_DIFFICULTY")
    case True
    with inv show ?thesis
      by (simp add: session_inv_def submitted_distinct_def)
  next
    case False
    with inv show ?thesis
      by (simp add: session_inv_def in_session_def)
  qed
  with same rejected show ?thesis
    unfolding s_def submitted_distinct_def by blast
qed

theorem used_word_rejected_witness:
  "history (handleSubmitWord_begin ''a'' (run one_failure)) = history (run one_failure) \<and>
   lives (handleSubmitWord_begin ''b'' (run one_failure)) = lives (run one_failure) \<and>
   pending (handleSubmitWord_begin ''b'' (run one_failure)) = pending (run one_failure) \<and>
   allPreviouslyUsedWords (run one_failure) = usedWords one_failure"
proof -
  have a: "''a'' \<in> usedWords one_failure"
    by code_simp
  have b: "''b'' \<in> usedWords one_failure"
    by code_simp
  have p: "gameState (run one_failure) \<noteq> SELECTING_DIFFICULTY"
    by code_simp
  from used_word_rejected [of "''a''" one_failure] used_word_rejected [of "''b''" one_failure]
    a b p
  show ?thesis by blast
qed

subsection \<open>C7: the timeout\<close>

text \<open>
  C7. A timeout appends an attempt with the timeout word, similarity 0, no success and
  -1000 points, takes a life and sets the score to the maximum of 0 and the score minus
  1000. If no life is left the game is over; otherwise the timer is back at 30 and the
  phase is unchanged, so still playing. The current word is unchanged. The tick at one
  second or less left is what fires it.
\<close>

theorem timeout_transition:
  "history (handleTimeout s) = history s @
     [\<lparr> previousWord = currentWord s, newWord = TIMEOUT_WORD, similarity = 0,
        success = False, requiredThreshold = currentThreshold s, points = - 1000 \<rparr>] \<and>
   lives (handleTimeout s) = lives s - 1 \<and>
   score (handleTimeout s) = max 0 (score s - 1000) \<and>
   currentWord (handleTimeout s) = currentWord s \<and>
   (lives s - 1 = 0 \<longrightarrow> gameState (handleTimeout s) = GAME_OVER) \<and>
   (lives s - 1 > 0 \<longrightarrow>
      timeLeft (handleTimeout s) = 30 \<and> gameState (handleTimeout s) = gameState s) \<and>
   (gameState s = PLAYING \<and> \<not> isLoading s \<and> timeLeft s \<le> 1 \<longrightarrow>
      step s Tick = handleTimeout s) \<and>
   (gameState (run es) = PLAYING \<and> lives (run es) - 1 \<noteq> 0 \<longrightarrow>
      timeLeft (handleTimeout (run es)) = 30 \<and> gameState (handleTimeout (run es)) = PLAYING)"
proof -
  have "gameState (run es) = PLAYING \<longrightarrow> 1 \<le> lives (run es)"
    using session_inv_run [of es] by (simp add: session_inv_def)
  then have "gameState (run es) = PLAYING \<and> lives (run es) - 1 \<noteq> 0 \<longrightarrow>
      timeLeft (handleTimeout (run es)) = 30 \<and> gameState (handleTimeout (run es)) = PLAYING"
    by (auto simp add: handleTimeout_eq)
  then show ?thesis
    by (simp add: handleTimeout_eq interval_callback_def)
qed

theorem timeout_transition_witness:
  "step (run last_second) Tick = handleTimeout (run last_second) \<and>
   history (handleTimeout (run last_second)) =
     [\<lparr> previousWord = ''a'', newWord = TIMEOUT_WORD, similarity = 0,
        success = False, requiredThreshold = 0.5, points = - 1000 \<rparr>] \<and>
   lives (handleTimeout (run last_second)) = 2 \<and>
   score (handleTimeout (run last_second)) = 0 \<and>
   timeLeft (handleTimeout (run last_second)) = 30 \<and>
   gameState (handleTimeout (run last_second)) = PLAYING \<and>
   step (run last_life) Tick = handleTimeout (run last_life) \<and>
   lives (handleTimeout (run last_life)) = 0 \<and>
   gameState (handleTimeout (run last_life)) = GAME_OVER"
  using timeout_transition [of "run last_second" last_second]
    timeout_transition [of "run last_life" last_life] run_last_second run_last_life
  by (simp del: step.simps)

subsection \<open>C8: submissions outside play\<close>



subsection \<open>C9: no tick while a submission is in flight\<close>

text \<open>
  C9. Once a submission has called the oracle, a tick changes nothing (no decrement of the
  timer and no timeout) until the call resolves: any number of ticks before the result
  leaves the same state as none, and the resolved submission adds at most one attempt to
  the history, so a round is never penalised both by a timeout and by the submission.
\<close>

theorem no_tick_in_flight:
  assumes "pending (step (run es) (SubmitWord w)) \<noteq> NoCall"
  defines "s \<equiv> step (run es) (SubmitWord w)"
  shows "step s Tick = s \<and>
         foldl step s (replicate n Tick) = s \<and>
         foldl step s (replicate n Tick @ [SimilarityResult r]) = step s (SimilarityResult r) \<and>
         length (history (step s (SimilarityResult r))) \<le> length (history (run es)) + 1"
proof -
  have "session_inv (startingWord (es @ [SubmitWord w])) (run (es @ [SubmitWord w]))"
    by (rule session_inv_run)
  then have inv: "session_inv (startingWord (es @ [SubmitWord w])) s"
    by (simp only: run_snoc s_def)
  with assms(1) have loading: "isLoading s"
    by (simp add: session_inv_def s_def)
  have hist: "history s = history (run es)"
    by (cases "difficulty (run es)") (simp_all add: s_def handleSubmitWord_begin_def)
  have len: "length (history (step s (SimilarityResult r))) \<le> length (history s) + 1"
  proof (cases "pending s")
    case (AwaitSimilarity c)
    show ?thesis
    proof (cases r)
      case (Inl msg)
      with AwaitSimilarity show ?thesis by (simp add: resolve_error)
    next
      case (Inr sim)
      with AwaitSimilarity show ?thesis
        by (cases "c_currentThreshold c \<le> sim") (simp_all add: resolve_success resolve_failure)
    qed
  qed simp_all
  from loading have "step s Tick = s" by simp
  moreover from loading have "foldl step s (replicate n Tick) = s"
    by (rule ticks_in_flight)
  ultimately show ?thesis using len hist by simp
qed

theorem no_tick_in_flight_witness:
  "foldl step (step (run started) (SubmitWord ''b''))
      (replicate 45 Tick @ [SimilarityResult (Inr 0.375)]) =
   step (step (run started) (SubmitWord ''b'')) (SimilarityResult (Inr 0.375)) \<and>
   step (step (run started) (SubmitWord ''b'')) Tick = step (run started) (SubmitWord ''b'')"
proof -
  have h: "pending (step (run started) (SubmitWord ''b'')) \<noteq> NoCall"
    by (simp add: run_started handleSubmitWord_begin_def allPreviouslyUsedWords_def)
  show ?thesis
    using no_tick_in_flight [OF h, of 45 "Inr 0.375"] by (simp del: step.simps)
qed

subsection \<open>C10: the timer while playing\<close>

text \<open>
  C10. While playing the timer is between 1 and 30, never 0: a tick at 1 fires the
  timeout, which ends the game or puts the timer back at 30, and every step that records
  an attempt and leaves the session playing puts the timer back at 30.
\<close>

theorem timer_invariant:
  "(gameState (run es) = PLAYING \<longrightarrow> 1 \<le> timeLeft (run es) \<and> timeLeft (run es) \<le> 30) \<and>
   (gameState (run es) = PLAYING \<and> \<not> isLoading (run es) \<and> timeLeft (run es) = 1 \<longrightarrow>
      step (run es) Tick = handleTimeout (run es) \<and>
      (gameState (step (run es) Tick) = GAME_OVER \<or>
       gameState (step (run es) Tick) = PLAYING \<and> timeLeft (step (run es) Tick) = 30)) \<and>
   (history (step (run es) e) \<noteq> history (run es) \<and> gameState (step (run es) e) = PLAYING \<longrightarrow>
      timeLeft (step (run es) e) = 30)"
proof -
  define s where "s = run es"
  have inv: "session_inv (startingWord es) s"
    unfolding s_def by (rule session_inv_run)
  then have range: "1 \<le> timeLeft s \<and> timeLeft s \<le> 30"
    by (simp add: session_inv_def)
  have tick: "step s Tick = handleTimeout s \<and>
      (gameState (step s Tick) = GAME_OVER \<or>
       gameState (step s Tick) = PLAYING \<and> timeLeft (step s Tick) = 30)"
    if "gameState s = PLAYING" "\<not> isLoading s" "timeLeft s = 1"
    using that by (simp add: interval_callback_def handleTimeout_eq)
  have attempt: "timeLeft (step s e) = 30"
    if changed: "history (step s e) \<noteq> history s" and playing: "gameState (step s e) = PLAYING"
  proof (cases e)
    case (SelectDifficulty d)
    with changed playing show ?thesis
      by (simp add: handleSelectDifficulty_begin_def split: if_splits)
  next
    case (RandomWordResult r)
    with changed show ?thesis
      by (cases "pending s"; cases r) (simp_all add: handleSelectDifficulty_resolve_def)
  next
    case (SubmitWord w)
    with changed show ?thesis
      by (cases "difficulty s") (simp_all add: handleSubmitWord_begin_def split: if_splits)
  next
    case (SimilarityResult r)
    show ?thesis
    proof (cases "pending s")
      case (AwaitSimilarity c)
      show ?thesis
      proof (cases r)
        case (Inl msg)
        with changed SimilarityResult AwaitSimilarity show ?thesis
          by (simp add: resolve_error)
      next
        case (Inr sim)
        with playing SimilarityResult AwaitSimilarity show ?thesis
          by (cases "c_currentThreshold c \<le> sim")
             (simp_all add: resolve_success resolve_failure split: if_splits)
      qed
    qed (use changed SimilarityResult in simp_all)
  next
    case Tick
    with changed playing show ?thesis
      by (simp add: interval_callback_def handleTimeout_eq split: if_splits)
  next
    case Restart
    with changed playing show ?thesis
      by (simp add: handleRestart_def split: if_splits)
  qed
  from range tick attempt show ?thesis
    unfolding s_def by blast
qed

theorem timer_invariant_witness:
  "1 \<le> timeLeft (run last_second) \<and> timeLeft (run last_second) \<le> 30 \<and>
   step (run last_second) Tick = handleTimeout (run last_second) \<and>
   timeLeft (step (run last_second) Tick) = 30"
proof -
  have h: "gameState (run last_second) = PLAYING" "\<not> isLoading (run last_second)"
    "timeLeft (run last_second) = 1"
    using run_last_second by simp_all
  have g: "gameState (step (run last_second) Tick) \<noteq> GAME_OVER"
    using run_last_second by (simp add: interval_callback_def handleTimeout_eq)
  from timer_invariant [of last_second Tick] h g show ?thesis
    by blast
qed

end
